theory Spec2Isabelle
  imports Complex_Main
begin

section \<open>Python values\<close>

text \<open>
  The documents handled by the gesture scripts are what \<^verbatim>\<open>resp.json()\<close> returns: Python
  values built from \<^verbatim>\<open>None\<close>, booleans, integers, floats, strings, lists and
  dictionaries. A float is a finite number, an infinity or NaN (the JSON reader of
  Python accepts \<^verbatim>\<open>Infinity\<close> and \<^verbatim>\<open>NaN\<close>); the finite ones are
  kept as the real number they denote, which is all that truth testing and the comparison
  with \<^verbatim>\<open>50\<close> look at. A dictionary is an association list with distinct keys, read
  with \<open>map_of\<close>. Console output (\<^verbatim>\<open>print\<close>) is not part of the model.
\<close>

datatype pyfloat = Finite real | PosInf | NegInf | NaN

datatype pyval =
    PNone
  | PBool bool
  | PInt int
  | PFloat pyfloat
  | PStr string
  | PList "pyval list"
  | PDict "(string \<times> pyval) list"

text \<open>The exceptions the modelled code can raise.\<close>

datatype exn = AttributeError | TypeError | RuntimeError | ActionFailed

text \<open>Truth testing, as \<^verbatim>\<open>not x\<close>, \<^verbatim>\<open>if x\<close> and \<^verbatim>\<open>x or y\<close> apply it.\<close>

fun truthy :: "pyval \<Rightarrow> bool" where
  "truthy PNone = False"
| "truthy (PBool b) = b"
| "truthy (PInt i) = (i \<noteq> 0)"
| "truthy (PFloat (Finite r)) = (r \<noteq> 0)"
| "truthy (PFloat PosInf) = True"
| "truthy (PFloat NegInf) = True"
| "truthy (PFloat NaN) = True"
| "truthy (PStr s) = (s \<noteq> [])"
| "truthy (PList xs) = (xs \<noteq> [])"
| "truthy (PDict kvs) = (kvs \<noteq> [])"

text \<open>\<^verbatim>\<open>a or b\<close>: the first operand when it is truthy, the second otherwise.\<close>

definition py_or :: "pyval \<Rightarrow> pyval \<Rightarrow> pyval" where
  "py_or a b = (if truthy a then a else b)"

text \<open>\<^verbatim>\<open>d.get(k, default)\<close> on a dictionary; \<^verbatim>\<open>d.get(k)\<close> has the default \<^verbatim>\<open>None\<close>.\<close>

definition dict_get :: "(string \<times> pyval) list \<Rightarrow> string \<Rightarrow> pyval \<Rightarrow> pyval" where
  "dict_get kvs k dflt = (case map_of kvs k of Some v \<Rightarrow> v | None \<Rightarrow> dflt)"

text \<open>
  \<^verbatim>\<open>for x in v\<close>: a list yields its elements, a dictionary its keys, a string its
  characters as one-character strings; nothing else is iterable.
\<close>

fun py_iter :: "pyval \<Rightarrow> exn + pyval list" where
  "py_iter (PList xs) = Inr xs"
| "py_iter (PDict kvs) = Inr (map (\<lambda>kv. PStr (fst kv)) kvs)"
| "py_iter (PStr s) = Inr (map (\<lambda>c. PStr [c]) s)"
| "py_iter _ = Inl TypeError"

text \<open>
  \<^verbatim>\<open>score > 50\<close>: defined on numbers (a boolean counts as 0 or 1), a
  \<^verbatim>\<open>TypeError\<close> on everything else.
\<close>

fun gt_50 :: "pyval \<Rightarrow> exn + bool" where
  "gt_50 (PInt i) = Inr (50 < i)"
| "gt_50 (PBool b) = Inr False"
| "gt_50 (PFloat (Finite r)) = Inr (50 < r)"
| "gt_50 (PFloat PosInf) = Inr True"
| "gt_50 (PFloat NegInf) = Inr False"
| "gt_50 (PFloat NaN) = Inr False"
| "gt_50 _ = Inl TypeError"

text \<open>
  \<^verbatim>\<open>s.lower()\<close>, \<^verbatim>\<open>s.replace(c, "")\<close>. Strings are byte strings here; the
  letters A to Z are the only bytes \<open>lower_char\<close> changes. The result is compared with
  two ASCII words only, and no character outside ASCII lower-cases to a letter of those
  words.
\<close>

definition lower_char :: "char \<Rightarrow> char" where
  "lower_char c =
     (case map_of (zip ''ABCDEFGHIJKLMNOPQRSTUVWXYZ'' ''abcdefghijklmnopqrstuvwxyz'') c of
        Some l \<Rightarrow> l
      | None \<Rightarrow> c)"

definition py_lower :: "string \<Rightarrow> string" where
  "py_lower s = map lower_char s"

definition py_remove :: "char \<Rightarrow> string \<Rightarrow> string" where
  "py_remove c s = filter (\<lambda>x. x \<noteq> c) s"

section \<open>The response normalizer: \<^verbatim>\<open>detect_thumbs_up\<close>\<close>

text \<open>
  \<^verbatim>\<open>facepp_gesture_volume_control.py\<close>, lines 104 to 142; the function of
  \<^verbatim>\<open>facepp_gesture_volume_control_v2.py\<close> (lines 89 to 120) has the same statements and
  differs in what it prints only, so one definition stands for both.
\<close>

text \<open>Line 115: the first truthy value under the three keys, else the empty list.\<close>

definition find_hands :: "(string \<times> pyval) list \<Rightarrow> pyval" where
  "find_hands payload =
     py_or (py_or (py_or (dict_get payload ''hands'' PNone)
                         (dict_get payload ''hand_gestures'' PNone))
                  (dict_get payload ''result'' PNone))
           (PList [])"

text \<open>Lines 117 and 118: a dictionary is replaced by its \<^verbatim>\<open>hands\<close> entry.\<close>

fun unwrap_hands :: "pyval \<Rightarrow> pyval" where
  "unwrap_hands (PDict d) = dict_get d ''hands'' (PList [])"
| "unwrap_hands v = v"

text \<open>Line 125: the gesture descriptor of a hand record.\<close>

definition hand_gesture :: "(string \<times> pyval) list \<Rightarrow> pyval" where
  "hand_gesture hand =
     py_or (py_or (dict_get hand ''gesture'' PNone) (dict_get hand ''gesture_type'' PNone))
           (dict_get hand ''label'' PNone)"

text \<open>Line 138: the normalized label.\<close>

definition gesture_normalized :: "string \<Rightarrow> string" where
  "gesture_normalized s = py_remove CHR '' '' (py_remove CHR ''_'' (py_lower s))"

text \<open>
  Lines 128 to 140, for one descriptor: \<open>Inr True\<close> is the \<^verbatim>\<open>return True\<close> of the
  source, \<open>Inr False\<close> falls through to the next hand.
\<close>

fun gesture_is_thumbs_up :: "pyval \<Rightarrow> exn + bool" where
  "gesture_is_thumbs_up (PDict g) = gt_50 (dict_get g ''thumb_up'' (PInt 0))"
| "gesture_is_thumbs_up (PStr s) =
     Inr (gesture_normalized s = ''thumbup'' \<or> gesture_normalized s = ''thumbsup'')"
| "gesture_is_thumbs_up _ = Inr False"

text \<open>The body of the loop for one hand; \<^verbatim>\<open>hand.get\<close> exists on dictionaries only.\<close>

fun hand_is_thumbs_up :: "pyval \<Rightarrow> exn + bool" where
  "hand_is_thumbs_up (PDict hand) = gesture_is_thumbs_up (hand_gesture hand)"
| "hand_is_thumbs_up _ = Inl AttributeError"

text \<open>Lines 124 to 142: the loop over the hands and the final \<^verbatim>\<open>return False\<close>.\<close>

fun hands_loop :: "pyval list \<Rightarrow> exn + pyval" where
  "hands_loop [] = Inr (PBool False)"
| "hands_loop (hand # rest) =
     (case hand_is_thumbs_up hand of
        Inl e \<Rightarrow> Inl e
      | Inr True \<Rightarrow> Inr (PBool True)
      | Inr False \<Rightarrow> hands_loop rest)"

definition detect_thumbs_up :: "pyval \<Rightarrow> exn + pyval" where
  "detect_thumbs_up payload =
     (if \<not> truthy payload then Inr (PBool False)
      else case payload of
        PDict kvs \<Rightarrow>
          (let hands = unwrap_hands (find_hands kvs) in
           if \<not> truthy hands then Inr (PBool False)
           else case py_iter hands of
                  Inl e \<Rightarrow> Inl e
                | Inr hs \<Rightarrow> hands_loop hs)
      | _ \<Rightarrow> Inl AttributeError)"

text \<open>
  The method \<^verbatim>\<open>GestureVolumeApp.detect_thumbs_up\<close> of \<^verbatim>\<open>gesture_volume_app.py\<close>
  (lines 467 to 481) is a shorter variant: it reads the key \<^verbatim>\<open>hands\<close> only, has no test
  for an empty collection before the loop, and looks at \<^verbatim>\<open>gesture\<close> entries that are
  dictionaries only.
\<close>

fun app_hand_is_thumbs_up :: "pyval \<Rightarrow> exn + bool" where
  "app_hand_is_thumbs_up (PDict hand) =
     (case py_or (dict_get hand ''gesture'' PNone) (PDict []) of
        PDict g \<Rightarrow> gt_50 (dict_get g ''thumb_up'' (PInt 0))
      | _ \<Rightarrow> Inr False)"
| "app_hand_is_thumbs_up _ = Inl AttributeError"

fun app_hands_loop :: "pyval list \<Rightarrow> exn + pyval" where
  "app_hands_loop [] = Inr (PBool False)"
| "app_hands_loop (hand # rest) =
     (case app_hand_is_thumbs_up hand of
        Inl e \<Rightarrow> Inl e
      | Inr True \<Rightarrow> Inr (PBool True)
      | Inr False \<Rightarrow> app_hands_loop rest)"

definition app_detect_thumbs_up :: "pyval \<Rightarrow> exn + pyval" where
  "app_detect_thumbs_up payload =
     (if \<not> truthy payload then Inr (PBool False)
      else case payload of
        PDict kvs \<Rightarrow>
          (let hands = unwrap_hands (py_or (dict_get kvs ''hands'' PNone) (PList [])) in
           case py_iter hands of
             Inl e \<Rightarrow> Inl e
           | Inr hs \<Rightarrow> app_hands_loop hs)
      | _ \<Rightarrow> Inl AttributeError)"

section \<open>The classifier client\<close>

text \<open>
  What the network does when a request is made is an input of the model: the frame could
  not be encoded, the request or the decoding of its answer raised, or an answer arrived
  with a status code and a decoded body.
\<close>

datatype api_reply = EncodeFailed | RequestFailed | Response int pyval

fun starts_with :: "string \<Rightarrow> string \<Rightarrow> bool" where
  "starts_with [] s = True"
| "starts_with (p # ps) [] = False"
| "starts_with (p # ps) (c # cs) = (p = c \<and> starts_with ps cs)"

fun contains_str :: "string \<Rightarrow> string \<Rightarrow> bool" where
  "contains_str n [] = (n = [])"
| "contains_str n (c # cs) = (starts_with n (c # cs) \<or> contains_str n cs)"

text \<open>
  \<^verbatim>\<open>k in v\<close> for a string \<open>k\<close>: a key of a dictionary, an element of a list, a
  substring of a string; a \<^verbatim>\<open>TypeError\<close> on the other values.
\<close>

fun py_in :: "string \<Rightarrow> pyval \<Rightarrow> exn + bool" where
  "py_in k (PDict kvs) = Inr (map_of kvs k \<noteq> None)"
| "py_in k (PList xs) = Inr (PStr k \<in> set xs)"
| "py_in k (PStr s) = Inr (contains_str k s)"
| "py_in k _ = Inl TypeError"

text \<open>
  \<^verbatim>\<open>post_to_facepp_gesture\<close> (\<^verbatim>\<open>facepp_gesture_volume_control.py\<close>, lines 68 to 101):
  every exception inside the \<^verbatim>\<open>try\<close> block, a status code other than 200 and a body
  with an \<^verbatim>\<open>error_message\<close> all end in \<^verbatim>\<open>None\<close>.
\<close>

fun post_to_facepp_gesture :: "api_reply \<Rightarrow> pyval" where
  "post_to_facepp_gesture EncodeFailed = PNone"
| "post_to_facepp_gesture RequestFailed = PNone"
| "post_to_facepp_gesture (Response status_code payload) =
     (if status_code \<noteq> 200 then PNone
      else case py_in ''error_message'' payload of
             Inl e \<Rightarrow> PNone
           | Inr True \<Rightarrow> PNone
           | Inr False \<Rightarrow> payload)"

text \<open>\<^verbatim>\<open>GestureVolumeApp.call_gesture_api\<close> (\<^verbatim>\<open>gesture_volume_app.py\<close>, lines 448 to 465).\<close>

fun call_gesture_api :: "api_reply \<Rightarrow> pyval" where
  "call_gesture_api EncodeFailed = PNone"
| "call_gesture_api RequestFailed = PNone"
| "call_gesture_api (Response status_code payload) =
     (if status_code = 200 then
        (case py_in ''error_message'' payload of
           Inl e \<Rightarrow> PNone
         | Inr has_error \<Rightarrow> if \<not> has_error then payload else PNone)
      else PNone)"

section \<open>The control loop of the script\<close>

text \<open>
  \<^verbatim>\<open>run_continuous_gesture_detection\<close> (\<^verbatim>\<open>facepp_gesture_volume_control.py\<close>, lines 155
  to 207). The two local variables of the loop are the state. Each pass of the loop reads
  its inputs from the outside world; they are collected in a \<open>tick\<close>: whether the camera
  delivered a frame, the key code, the clock, what the network does if a request is made
  and whether the volume key press goes through if it is made. Clock readings are real
  numbers and their differences are exact.
\<close>

definition API_CALL_INTERVAL :: real where
  "API_CALL_INTERVAL = 2"

definition COOLDOWN_PERIOD :: real where
  "COOLDOWN_PERIOD = 1"

record loop_state =
  last_api_call :: real
  last_trigger_time :: real

record tick =
  frame_ok :: bool
  key_code :: nat
  current_time :: real
  reply :: api_reply
  volume_ok :: bool

text \<open>
  What a pass of the loop does to the outside world: a classification call issued at a
  tick time, the volume action invoked at a tick time (with whether it went through).
\<close>

datatype event = ApiCall real | VolumeAction real bool

datatype ctl = Continue | Break | Raise exn

definition fresh_state :: loop_state where
  "fresh_state = \<lparr>last_api_call = 0, last_trigger_time = 0\<rparr>"

text \<open>
  Lines 202 to 204, entered after a positive detection: the cooldown guard, the volume
  action and the update of \<^verbatim>\<open>last_trigger_time\<close>. \<^verbatim>\<open>simulate_volume_up\<close> has no
  handler around it, so a failing key press leaves the loop as an exception.
\<close>

definition cooldown_guard :: "loop_state \<Rightarrow> real \<Rightarrow> bool \<Rightarrow> event list \<times> loop_state \<times> ctl" where
  "cooldown_guard s t ok =
     (if COOLDOWN_PERIOD \<le> t - last_trigger_time s then
        (if ok then ([VolumeAction t True], s\<lparr>last_trigger_time := t\<rparr>, Continue)
         else ([VolumeAction t False], s, Raise ActionFailed))
      else ([], s, Continue))"

text \<open>One pass of the \<^verbatim>\<open>while True\<close> loop, lines 177 to 204.\<close>

definition loop_body :: "loop_state \<Rightarrow> tick \<Rightarrow> event list \<times> loop_state \<times> ctl" where
  "loop_body s tk =
     (if \<not> frame_ok tk then ([], s, Break)
      else if key_code tk = 27 then ([], s, Break)
      else
        let t = current_time tk in
        if API_CALL_INTERVAL \<le> t - last_api_call s then
          (let s1 = s\<lparr>last_api_call := t\<rparr> in
           case detect_thumbs_up (post_to_facepp_gesture (reply tk)) of
             Inl e \<Rightarrow> ([ApiCall t], s1, Raise e)
           | Inr r \<Rightarrow>
               if truthy r then
                 (case cooldown_guard s1 t (volume_ok tk) of
                    (evs, s2, c) \<Rightarrow> (ApiCall t # evs, s2, c))
               else ([ApiCall t], s1, Continue))
        else ([], s, Continue))"

text \<open>The loop over the ticks that the outside world supplies.\<close>

fun while_loop :: "loop_state \<Rightarrow> tick list \<Rightarrow> event list \<times> loop_state \<times> ctl" where
  "while_loop s [] = ([], s, Continue)"
| "while_loop s (tk # tks) =
     (case loop_body s tk of
        (evs, s1, Continue) \<Rightarrow>
          (case while_loop s1 tks of (evs', s2, c) \<Rightarrow> (evs @ evs', s2, c))
      | (evs, s1, c) \<Rightarrow> (evs, s1, c))"


text \<open>The times of the classification calls and of the volume actions in a trace.\<close>

fun call_times :: "event list \<Rightarrow> real list" where
  "call_times [] = []"
| "call_times (ApiCall t # evs) = t # call_times evs"
| "call_times (VolumeAction t ok # evs) = call_times evs"

fun action_times :: "event list \<Rightarrow> real list" where
  "action_times [] = []"
| "action_times (ApiCall t # evs) = action_times evs"
| "action_times (VolumeAction t ok # evs) = t # action_times evs"

section \<open>The control loop of the desktop application\<close>

text \<open>
  \<^verbatim>\<open>GestureVolumeApp.detection_loop\<close> and \<^verbatim>\<open>increase_volume\<close>
  (\<^verbatim>\<open>gesture_volume_app.py\<close>, lines 379 to 400 and 483 to 502). The state is the two
  timestamps and the two counters of \<^verbatim>\<open>self.stats\<close>.
\<close>

record app_state =
  self_last_api_call :: real
  self_last_trigger_time :: real
  gestures_detected :: nat
  volume_changes :: nat

text \<open>
  The outside world of \<^verbatim>\<open>increase_volume\<close>: the operating system's name and, for each
  command the method may run, whether it completes.
\<close>

record volume_env =
  system :: string
  powershell_ok :: bool
  osascript_ok :: bool
  amixer_ok :: bool
  pactl_ok :: bool

text \<open>
  Every exception of the body is swallowed by \<^verbatim>\<open>except: pass\<close>, and the method returns
  nothing. The value of the model is the effect: whether a volume command completed.
\<close>

definition increase_volume :: "volume_env \<Rightarrow> bool" where
  "increase_volume env =
     (if system env = ''Windows'' then powershell_ok env
      else if system env = ''Darwin'' then osascript_ok env
      else if system env = ''Linux'' then (amixer_ok env \<or> pactl_ok env)
      else False)"

record app_tick =
  is_running :: bool
  time_now :: real
  has_current_frame :: bool
  app_reply :: api_reply
  app_env :: volume_env

text \<open>Lines 393 to 398, entered after a positive detection.\<close>

definition app_on_thumbs_up :: "app_state \<Rightarrow> real \<Rightarrow> volume_env \<Rightarrow> event list \<times> app_state" where
  "app_on_thumbs_up s t env =
     (let s1 = s\<lparr>gestures_detected := gestures_detected s + 1\<rparr> in
      if COOLDOWN_PERIOD \<le> t - self_last_trigger_time s1 then
        ([VolumeAction t (increase_volume env)],
         s1\<lparr>volume_changes := volume_changes s1 + 1, self_last_trigger_time := t\<rparr>)
      else ([], s1))"

text \<open>One pass of \<^verbatim>\<open>while self.is_running\<close>, lines 381 to 400.\<close>

definition detection_loop_body :: "app_state \<Rightarrow> app_tick \<Rightarrow> event list \<times> app_state \<times> ctl" where
  "detection_loop_body s tk =
     (if \<not> is_running tk then ([], s, Break)
      else
        let t = time_now tk in
        if API_CALL_INTERVAL \<le> t - self_last_api_call s \<and> has_current_frame tk then
          (let s1 = s\<lparr>self_last_api_call := t\<rparr> in
           case app_detect_thumbs_up (call_gesture_api (app_reply tk)) of
             Inl e \<Rightarrow> ([ApiCall t], s1, Raise e)
           | Inr r \<Rightarrow>
               if truthy r then
                 (case app_on_thumbs_up s1 t (app_env tk) of
                    (evs, s2) \<Rightarrow> (ApiCall t # evs, s2, Continue))
               else ([ApiCall t], s1, Continue))
        else ([], s, Continue))"

fun detection_loop :: "app_state \<Rightarrow> app_tick list \<Rightarrow> event list \<times> app_state \<times> ctl" where
  "detection_loop s [] = ([], s, Continue)"
| "detection_loop s (tk # tks) =
     (case detection_loop_body s tk of
        (evs, s1, Continue) \<Rightarrow>
          (case detection_loop s1 tks of (evs', s2, c) \<Rightarrow> (evs @ evs', s2, c))
      | (evs, s1, c) \<Rightarrow> (evs, s1, c))"

section \<open>Shapes of documents\<close>

text \<open>
  A well-typed document. The payload is \<^verbatim>\<open>None\<close> or a dictionary. Under each of the
  keys \<^verbatim>\<open>hands\<close>, \<^verbatim>\<open>hand_gestures\<close> and \<^verbatim>\<open>result\<close> there is nothing,
  \<^verbatim>\<open>None\<close>, a list of hand records, or a dictionary whose \<^verbatim>\<open>hands\<close> entry is missing
  or a list of hand records. A hand record is a dictionary; under each of its keys
  \<^verbatim>\<open>gesture\<close>, \<^verbatim>\<open>gesture_type\<close> and \<^verbatim>\<open>label\<close> there is nothing or a descriptor; a
  descriptor that is a dictionary has no \<^verbatim>\<open>thumb_up\<close> entry or a number there (Python
  counts a boolean as a number).
\<close>

fun is_number :: "pyval \<Rightarrow> bool" where
  "is_number (PInt i) = True"
| "is_number (PFloat f) = True"
| "is_number (PBool b) = True"
| "is_number _ = False"

definition entry_ok :: "(pyval \<Rightarrow> bool) \<Rightarrow> (string \<times> pyval) list \<Rightarrow> string \<Rightarrow> bool" where
  "entry_ok P kvs k = (case map_of kvs k of None \<Rightarrow> True | Some v \<Rightarrow> P v)"

fun descriptor_ok :: "pyval \<Rightarrow> bool" where
  "descriptor_ok (PDict g) = entry_ok is_number g ''thumb_up''"
| "descriptor_ok _ = True"

fun hand_ok :: "pyval \<Rightarrow> bool" where
  "hand_ok (PDict h) =
     (entry_ok descriptor_ok h ''gesture'' \<and> entry_ok descriptor_ok h ''gesture_type'' \<and>
      entry_ok descriptor_ok h ''label'')"
| "hand_ok _ = False"

fun hand_list_ok :: "pyval \<Rightarrow> bool" where
  "hand_list_ok (PList hs) = list_all hand_ok hs"
| "hand_list_ok _ = False"

fun collection_ok :: "pyval \<Rightarrow> bool" where
  "collection_ok PNone = True"
| "collection_ok (PList hs) = list_all hand_ok hs"
| "collection_ok (PDict d) = entry_ok hand_list_ok d ''hands''"
| "collection_ok _ = False"

fun document_ok :: "pyval \<Rightarrow> bool" where
  "document_ok PNone = True"
| "document_ok (PDict kvs) =
     (entry_ok collection_ok kvs ''hands'' \<and> entry_ok collection_ok kvs ''hand_gestures'' \<and>
      entry_ok collection_ok kvs ''result'')"
| "document_ok _ = False"

text \<open>A descriptor that is neither a dictionary nor a string, and a hand record with one.\<close>

fun other_descriptor :: "pyval \<Rightarrow> bool" where
  "other_descriptor (PDict g) = False"
| "other_descriptor (PStr s) = False"
| "other_descriptor _ = True"

fun unmatched_hand :: "pyval \<Rightarrow> bool" where
  "unmatched_hand (PDict h) = other_descriptor (hand_gesture h)"
| "unmatched_hand _ = False"

text \<open>
  The \<^verbatim>\<open>GestureSignal\<close> of the specification, a record of the flag \<^verbatim>\<open>present\<close> and a
  \<^verbatim>\<open>confidence\<close>, written as the Python value that would carry the two fields. It
  follows the specification's words and is compared with what the source returns.
\<close>

definition GestureSignal :: "bool \<Rightarrow> pyval \<Rightarrow> pyval" where
  "GestureSignal present confidence =
     PDict [(''present'', PBool present), (''confidence'', confidence)]"

section \<open>Sample inputs\<close>

text \<open>
  The document \<^verbatim>\<open>{"hands":[{"gesture":{"thumb_up":75}}]}\<close>, a pass of the script's loop
  at a given time with a given answer of the network (a frame was read, no key was
  pressed, the key press for the volume goes through), and the same for the application
  (running, a frame is there).
\<close>

definition thumbs_up_document :: pyval where
  "thumbs_up_document =
     PDict [(''hands'', PList [PDict [(''gesture'', PDict [(''thumb_up'', PInt 75)])]])]"

definition tick_at :: "real \<Rightarrow> api_reply \<Rightarrow> tick" where
  "tick_at t r =
     \<lparr>frame_ok = True, key_code = 255, current_time = t, reply = r, volume_ok = True\<rparr>"

definition app_tick_at :: "real \<Rightarrow> api_reply \<Rightarrow> volume_env \<Rightarrow> app_tick" where
  "app_tick_at t r env =
     \<lparr>is_running = True, time_now = t, has_current_frame = True, app_reply = r, app_env = env\<rparr>"

definition linux_without_mixer :: volume_env where
  "linux_without_mixer =
     \<lparr>system = ''Linux'', powershell_ok = False, osascript_ok = False, amixer_ok = False,
      pactl_ok = False\<rparr>"

definition macos :: volume_env where
  "macos =
     \<lparr>system = ''Darwin'', powershell_ok = False, osascript_ok = True, amixer_ok = False,
      pactl_ok = False\<rparr>"

section \<open>Helper lemmas\<close>

lemma detect_thumbs_up_None: "detect_thumbs_up PNone = Inr (PBool False)"
  by (simp add: detect_thumbs_up_def)

subsection \<open>Well-typed documents never raise\<close>

lemma gt_50_number: "is_number v \<Longrightarrow> \<exists>b. gt_50 v = Inr b"
  by (induction v rule: gt_50.induct) auto

lemma entry_ok_get: "entry_ok P kvs k \<Longrightarrow> P dflt \<Longrightarrow> P (dict_get kvs k dflt)"
  by (simp add: entry_ok_def dict_get_def split: option.splits)

lemma hand_gesture_ok: "hand_ok (PDict h) \<Longrightarrow> descriptor_ok (hand_gesture h)"
proof -
  assume ok: "hand_ok (PDict h)"
  have "descriptor_ok (dict_get h k PNone)" if "entry_ok descriptor_ok h k" for k
    using that entry_ok_get [of descriptor_ok h k PNone] by simp
  with ok show ?thesis
    by (simp add: hand_gesture_def py_or_def)
qed

lemma gesture_is_thumbs_up_ok: "descriptor_ok g \<Longrightarrow> \<exists>b. gesture_is_thumbs_up g = Inr b"
proof (cases g)
  case (PDict d)
  assume "descriptor_ok g"
  with PDict have "is_number (dict_get d ''thumb_up'' (PInt 0))"
    by (simp add: entry_ok_get)
  with PDict show ?thesis by (simp add: gt_50_number)
qed auto

lemma hand_is_thumbs_up_ok: "hand_ok h \<Longrightarrow> \<exists>b. hand_is_thumbs_up h = Inr b"
proof (cases h)
  case (PDict d)
  assume "hand_ok h"
  with PDict show ?thesis
    using gesture_is_thumbs_up_ok [OF hand_gesture_ok, of d] by simp
qed simp_all

lemma hands_loop_ok: "list_all hand_ok hs \<Longrightarrow> \<exists>b. hands_loop hs = Inr (PBool b)"
proof (induction hs)
  case Nil
  show ?case by auto
next
  case (Cons h hs)
  then obtain b where "hand_is_thumbs_up h = Inr b"
    using hand_is_thumbs_up_ok by auto
  with Cons show ?case by (cases b) auto
qed

lemma app_hand_is_thumbs_up_ok: "hand_ok h \<Longrightarrow> \<exists>b. app_hand_is_thumbs_up h = Inr b"
proof (cases h)
  case (PDict d)
  assume ok: "hand_ok h"
  let ?g = "py_or (dict_get d ''gesture'' PNone) (PDict [])"
  from ok PDict have "descriptor_ok (dict_get d ''gesture'' PNone)"
    using entry_ok_get [of descriptor_ok d "''gesture''" PNone] by simp
  then have "descriptor_ok ?g"
    by (simp add: py_or_def entry_ok_def)
  then have "\<exists>b. (case ?g of PDict g \<Rightarrow> gt_50 (dict_get g ''thumb_up'' (PInt 0)) | _ \<Rightarrow> Inr False) = Inr b"
    by (cases ?g) (auto simp add: entry_ok_get gt_50_number)
  with PDict show ?thesis by simp
qed simp_all

lemma app_hands_loop_ok: "list_all hand_ok hs \<Longrightarrow> \<exists>b. app_hands_loop hs = Inr (PBool b)"
proof (induction hs)
  case Nil
  show ?case by auto
next
  case (Cons h hs)
  then obtain b where "app_hand_is_thumbs_up h = Inr b"
    using app_hand_is_thumbs_up_ok by auto
  with Cons show ?case by (cases b) auto
qed

lemma unwrap_hands_ok:
  "collection_ok v \<Longrightarrow> truthy v \<Longrightarrow> \<exists>hs. unwrap_hands v = PList hs \<and> list_all hand_ok hs"
proof (cases v)
  case (PDict d)
  assume "collection_ok v"
  with PDict have "hand_list_ok (dict_get d ''hands'' (PList []))"
    by (simp add: entry_ok_get)
  then show ?thesis using PDict by (cases "dict_get d ''hands'' (PList [])") simp_all
qed simp_all

lemma find_hands_ok:
  "document_ok (PDict kvs) \<Longrightarrow> collection_ok (find_hands kvs)"
proof -
  assume ok: "document_ok (PDict kvs)"
  have "collection_ok (dict_get kvs k PNone)" if "entry_ok collection_ok kvs k" for k
    using that entry_ok_get [of collection_ok kvs k PNone] by simp
  with ok show ?thesis
    by (simp add: find_hands_def py_or_def)
qed

lemma detect_thumbs_up_ok: "document_ok p \<Longrightarrow> \<exists>b. detect_thumbs_up p = Inr (PBool b)"
proof (cases p)
  case (PDict kvs)
  assume ok: "document_ok p"
  show ?thesis
  proof (cases "truthy (find_hands kvs)")
    case True
    with ok PDict obtain hs where "unwrap_hands (find_hands kvs) = PList hs" "list_all hand_ok hs"
      using unwrap_hands_ok find_hands_ok by blast
    then show ?thesis using PDict hands_loop_ok [of hs]
      by (auto simp add: detect_thumbs_up_def)
  next
    case False
    then have "\<not> truthy (unwrap_hands (find_hands kvs))"
      by (cases "find_hands kvs") (simp_all add: dict_get_def)
    then show ?thesis using PDict by (auto simp add: detect_thumbs_up_def)
  qed
qed (auto simp add: detect_thumbs_up_def)

lemma app_detect_thumbs_up_ok: "document_ok p \<Longrightarrow> \<exists>b. app_detect_thumbs_up p = Inr (PBool b)"
proof (cases p)
  case (PDict kvs)
  assume ok: "document_ok p"
  let ?v = "py_or (dict_get kvs ''hands'' PNone) (PList [])"
  from ok PDict have "collection_ok (dict_get kvs ''hands'' PNone)"
    using entry_ok_get [of collection_ok kvs "''hands''" PNone] by simp
  then have c: "collection_ok ?v"
    by (simp add: py_or_def)
  have "\<exists>hs. unwrap_hands ?v = PList hs \<and> list_all hand_ok hs"
  proof (cases "truthy ?v")
    case True
    with c show ?thesis by (rule unwrap_hands_ok)
  next
    case False
    then have "?v = PList []" by (simp add: py_or_def split: if_splits)
    then show ?thesis by simp
  qed
  then obtain hs where "unwrap_hands ?v = PList hs" "list_all hand_ok hs" by blast
  then show ?thesis using PDict app_hands_loop_ok [of hs]
    by (auto simp add: app_detect_thumbs_up_def)
qed (auto simp add: app_detect_thumbs_up_def)

subsection \<open>The loop over the hands\<close>

lemma detect_thumbs_up_located:
  "unwrap_hands (find_hands kvs) = PList hs \<Longrightarrow> detect_thumbs_up (PDict kvs) = hands_loop hs"
  by (cases "kvs = []") (auto simp add: detect_thumbs_up_def find_hands_def py_or_def dict_get_def)

lemma find_hands_only_hands:
  "find_hands [(''hands'', v)] = (if truthy v then v else PList [])"
  by (simp add: find_hands_def py_or_def dict_get_def)

lemma detect_thumbs_up_hands_list:
  "detect_thumbs_up (PDict [(''hands'', PList hs)]) = hands_loop hs"
  by (rule detect_thumbs_up_located) (simp add: find_hands_only_hands)

lemma hands_loop_append_False:
  "hands_loop pre = Inr (PBool False) \<Longrightarrow> hands_loop (pre @ hs) = hands_loop hs"
proof (induction pre)
  case Nil
  show ?case by simp
next
  case (Cons h pre)
  then show ?case
    by (cases "hand_is_thumbs_up h") (auto split: bool.splits)
qed

lemma hands_loop_skip:
  "hand_is_thumbs_up h = Inr False \<Longrightarrow> hands_loop (pre @ h # post) = hands_loop (pre @ post)"
proof (induction pre)
  case Nil
  then show ?case by simp
next
  case (Cons x pre)
  then show ?case
    by (cases "hand_is_thumbs_up x") (auto split: bool.splits)
qed

lemma other_descriptor_no_match:
  "other_descriptor g \<Longrightarrow> gesture_is_thumbs_up g = Inr False"
  by (cases g) simp_all

lemma unmatched_hand_no_match: "unmatched_hand h \<Longrightarrow> hand_is_thumbs_up h = Inr False"
  by (cases h) (simp_all add: other_descriptor_no_match)

lemma hands_loop_all_unmatched:
  "list_all unmatched_hand hs \<Longrightarrow> hands_loop hs = Inr (PBool False)"
  by (induction hs) (simp_all add: unmatched_hand_no_match)

lemma find_hands_first_truthy:
  "find_hands kvs =
     (if truthy (dict_get kvs ''hands'' PNone) then dict_get kvs ''hands'' PNone
      else if truthy (dict_get kvs ''hand_gestures'' PNone) then dict_get kvs ''hand_gestures'' PNone
      else if truthy (dict_get kvs ''result'' PNone) then dict_get kvs ''result'' PNone
      else PList [])"
  by (simp add: find_hands_def py_or_def)

lemma detect_thumbs_up_no_hands:
  "\<not> truthy (unwrap_hands (find_hands kvs)) \<Longrightarrow> detect_thumbs_up (PDict kvs) = Inr (PBool False)"
  by (simp add: detect_thumbs_up_def)

lemma detect_thumbs_up_single_hand:
  "hand_is_thumbs_up h = Inr b \<Longrightarrow>
     detect_thumbs_up (PDict [(''hands'', PList [h])]) = Inr (PBool b)"
  by (cases b) (simp_all add: detect_thumbs_up_hands_list)

lemmas normalizer_defs = detect_thumbs_up_def find_hands_def py_or_def dict_get_def
  hand_gesture_def gesture_normalized_def py_remove_def py_lower_def lower_char_def

subsection \<open>The loop of the script: spacing of calls and of actions\<close>

lemma call_times_append: "call_times (xs @ ys) = call_times xs @ call_times ys"
  by (induction xs rule: call_times.induct) simp_all

lemma action_times_append: "action_times (xs @ ys) = action_times xs @ action_times ys"
  by (induction xs rule: action_times.induct) simp_all

lemma cooldown_guard_calls: "cooldown_guard s t ok = (evs, s1, c) \<Longrightarrow>
    call_times evs = [] \<and> last_api_call s1 = last_api_call s"
  by (auto simp add: cooldown_guard_def split: if_splits)

lemma cooldown_guard_actions: "cooldown_guard s t ok = (evs, s1, c) \<Longrightarrow>
    action_times evs = [] \<and> last_trigger_time s1 = last_trigger_time s \<or>
    action_times evs = [t] \<and> COOLDOWN_PERIOD \<le> t - last_trigger_time s \<and>
      (c = Continue \<longrightarrow> last_trigger_time s1 = t)"
  by (auto simp add: cooldown_guard_def split: if_splits)

lemma loop_body_calls:
  assumes "loop_body s tk = (evs, s1, c)"
  shows "call_times evs = [] \<and> last_api_call s1 = last_api_call s \<or>
         call_times evs = [current_time tk] \<and> last_api_call s1 = current_time tk \<and>
           API_CALL_INTERVAL \<le> current_time tk - last_api_call s"
proof (cases "frame_ok tk \<and> key_code tk \<noteq> 27 \<and>
    API_CALL_INTERVAL \<le> current_time tk - last_api_call s")
  case False
  with assms show ?thesis
    by (auto simp add: loop_body_def Let_def split: if_splits)
next
  case True
  let ?s1 = "s\<lparr>last_api_call := current_time tk\<rparr>"
  show ?thesis
  proof (cases "detect_thumbs_up (post_to_facepp_gesture (reply tk))")
    case (Inl e)
    with True assms show ?thesis by (auto simp add: loop_body_def Let_def)
  next
    case (Inr r)
    show ?thesis
    proof (cases "truthy r")
      case False
      with True Inr assms show ?thesis by (auto simp add: loop_body_def Let_def)
    next
      case t: True
      obtain evs' s2 c' where g: "cooldown_guard ?s1 (current_time tk) (volume_ok tk) = (evs', s2, c')"
        by (cases "cooldown_guard ?s1 (current_time tk) (volume_ok tk)") auto
      from cooldown_guard_calls [OF g] True Inr t assms g show ?thesis
        by (auto simp add: loop_body_def Let_def)
    qed
  qed
qed

lemma loop_body_actions:
  assumes "loop_body s tk = (evs, s1, c)"
  shows "action_times evs = [] \<and> last_trigger_time s1 = last_trigger_time s \<or>
         action_times evs = [current_time tk] \<and>
           COOLDOWN_PERIOD \<le> current_time tk - last_trigger_time s \<and>
           (c = Continue \<longrightarrow> last_trigger_time s1 = current_time tk)"
proof (cases "frame_ok tk \<and> key_code tk \<noteq> 27 \<and>
    API_CALL_INTERVAL \<le> current_time tk - last_api_call s")
  case False
  with assms show ?thesis
    by (auto simp add: loop_body_def Let_def split: if_splits)
next
  case True
  let ?s1 = "s\<lparr>last_api_call := current_time tk\<rparr>"
  show ?thesis
  proof (cases "detect_thumbs_up (post_to_facepp_gesture (reply tk))")
    case (Inl e)
    with True assms show ?thesis by (auto simp add: loop_body_def Let_def)
  next
    case (Inr r)
    show ?thesis
    proof (cases "truthy r")
      case False
      with True Inr assms show ?thesis by (auto simp add: loop_body_def Let_def)
    next
      case t: True
      obtain evs' s2 c' where g: "cooldown_guard ?s1 (current_time tk) (volume_ok tk) = (evs', s2, c')"
        by (cases "cooldown_guard ?s1 (current_time tk) (volume_ok tk)") auto
      from cooldown_guard_actions [OF g] True Inr t assms g show ?thesis
        by (auto simp add: loop_body_def Let_def)
    qed
  qed
qed

lemma while_loop_Cons:
  "loop_body s tk = (evs, s1, c) \<Longrightarrow>
     while_loop s (tk # tks) =
       (if c = Continue then (evs @ fst (while_loop s1 tks), snd (while_loop s1 tks))
        else (evs, s1, c))"
  by (cases c) (simp_all split: prod.splits)

lemma while_loop_calls_after:
  "t \<in> set (call_times (fst (while_loop s tks))) \<Longrightarrow> last_api_call s + API_CALL_INTERVAL \<le> t"
proof (induction tks arbitrary: s)
  case Nil
  then show ?case by simp
next
  case (Cons tk tks)
  obtain evs s1 c where b: "loop_body s tk = (evs, s1, c)"
    by (cases "loop_body s tk") auto
  note w = while_loop_Cons [OF b, of tks]
  from loop_body_calls [OF b] show ?case
  proof
    assume n: "call_times evs = [] \<and> last_api_call s1 = last_api_call s"
    with Cons.prems w have "t \<in> set (call_times (fst (while_loop s1 tks)))"
      by (auto simp add: call_times_append split: if_splits)
    then have "last_api_call s1 + API_CALL_INTERVAL \<le> t" by (rule Cons.IH)
    with n show ?case by simp
  next
    assume y: "call_times evs = [current_time tk] \<and> last_api_call s1 = current_time tk \<and>
           API_CALL_INTERVAL \<le> current_time tk - last_api_call s"
    with Cons.prems w have "t = current_time tk \<or> t \<in> set (call_times (fst (while_loop s1 tks)))"
      by (auto simp add: call_times_append split: if_splits)
    then show ?case
    proof
      assume "t = current_time tk"
      with y show ?case by simp
    next
      assume "t \<in> set (call_times (fst (while_loop s1 tks)))"
      then have "last_api_call s1 + API_CALL_INTERVAL \<le> t" by (rule Cons.IH)
      with y show ?case by (simp add: API_CALL_INTERVAL_def)
    qed
  qed
qed

lemma while_loop_calls_spaced:
  "sorted_wrt (\<lambda>a b. API_CALL_INTERVAL \<le> b - a) (call_times (fst (while_loop s tks)))"
proof (induction tks arbitrary: s)
  case Nil
  show ?case by simp
next
  case (Cons tk tks)
  obtain evs s1 c where b: "loop_body s tk = (evs, s1, c)"
    by (cases "loop_body s tk") auto
  note w = while_loop_Cons [OF b, of tks]
  from loop_body_calls [OF b] show ?case
  proof
    assume "call_times evs = [] \<and> last_api_call s1 = last_api_call s"
    with w Cons.IH [of s1] show ?case
      by (auto simp add: call_times_append)
  next
    assume y: "call_times evs = [current_time tk] \<and> last_api_call s1 = current_time tk \<and>
           API_CALL_INTERVAL \<le> current_time tk - last_api_call s"
    have "API_CALL_INTERVAL \<le> t - current_time tk"
      if "t \<in> set (call_times (fst (while_loop s1 tks)))" for t
      using while_loop_calls_after [OF that] y by simp
    with y w Cons.IH [of s1] show ?case
      by (auto simp add: call_times_append)
  qed
qed

lemma while_loop_actions_after:
  "t \<in> set (action_times (fst (while_loop s tks))) \<Longrightarrow> last_trigger_time s + COOLDOWN_PERIOD \<le> t"
proof (induction tks arbitrary: s)
  case Nil
  then show ?case by simp
next
  case (Cons tk tks)
  obtain evs s1 c where b: "loop_body s tk = (evs, s1, c)"
    by (cases "loop_body s tk") auto
  note w = while_loop_Cons [OF b, of tks]
  from loop_body_actions [OF b] show ?case
  proof
    assume n: "action_times evs = [] \<and> last_trigger_time s1 = last_trigger_time s"
    with Cons.prems w have "t \<in> set (action_times (fst (while_loop s1 tks)))"
      by (auto simp add: action_times_append split: if_splits)
    then have "last_trigger_time s1 + COOLDOWN_PERIOD \<le> t" by (rule Cons.IH)
    with n show ?case by simp
  next
    assume y: "action_times evs = [current_time tk] \<and>
           COOLDOWN_PERIOD \<le> current_time tk - last_trigger_time s \<and>
           (c = Continue \<longrightarrow> last_trigger_time s1 = current_time tk)"
    with Cons.prems w have "t = current_time tk \<or>
        c = Continue \<and> t \<in> set (action_times (fst (while_loop s1 tks)))"
      by (auto simp add: action_times_append split: if_splits)
    then show ?case
    proof
      assume "t = current_time tk"
      with y show ?case by simp
    next
      assume a: "c = Continue \<and> t \<in> set (action_times (fst (while_loop s1 tks)))"
      then have "last_trigger_time s1 + COOLDOWN_PERIOD \<le> t" by (simp add: Cons.IH)
      with y a show ?case by (simp add: COOLDOWN_PERIOD_def)
    qed
  qed
qed

lemma while_loop_actions_spaced:
  "sorted_wrt (\<lambda>a b. COOLDOWN_PERIOD \<le> b - a) (action_times (fst (while_loop s tks)))"
proof (induction tks arbitrary: s)
  case Nil
  show ?case by simp
next
  case (Cons tk tks)
  obtain evs s1 c where b: "loop_body s tk = (evs, s1, c)"
    by (cases "loop_body s tk") auto
  note w = while_loop_Cons [OF b, of tks]
  from loop_body_actions [OF b] show ?case
  proof
    assume "action_times evs = [] \<and> last_trigger_time s1 = last_trigger_time s"
    with w Cons.IH [of s1] show ?case
      by (auto simp add: action_times_append)
  next
    assume y: "action_times evs = [current_time tk] \<and>
           COOLDOWN_PERIOD \<le> current_time tk - last_trigger_time s \<and>
           (c = Continue \<longrightarrow> last_trigger_time s1 = current_time tk)"
    have "COOLDOWN_PERIOD \<le> t - current_time tk"
      if "c = Continue" "t \<in> set (action_times (fst (while_loop s1 tks)))" for t
      using while_loop_actions_after [OF that(2)] y that(1) by simp
    with y w Cons.IH [of s1] show ?case
      by (auto simp add: action_times_append)
  qed
qed

subsection \<open>The loop of the application: spacing of calls and of actions\<close>

lemma app_on_thumbs_up_calls: "app_on_thumbs_up s t env = (evs, s1) \<Longrightarrow>
    call_times evs = [] \<and> self_last_api_call s1 = self_last_api_call s"
  by (auto simp add: app_on_thumbs_up_def Let_def split: if_splits)

lemma app_on_thumbs_up_actions: "app_on_thumbs_up s t env = (evs, s1) \<Longrightarrow>
    action_times evs = [] \<and> self_last_trigger_time s1 = self_last_trigger_time s \<or>
    action_times evs = [t] \<and> COOLDOWN_PERIOD \<le> t - self_last_trigger_time s \<and>
      self_last_trigger_time s1 = t"
  by (auto simp add: app_on_thumbs_up_def Let_def split: if_splits)

lemma detection_loop_body_calls:
  assumes "detection_loop_body s tk = (evs, s1, c)"
  shows "call_times evs = [] \<and> self_last_api_call s1 = self_last_api_call s \<or>
         call_times evs = [time_now tk] \<and> self_last_api_call s1 = time_now tk \<and>
           API_CALL_INTERVAL \<le> time_now tk - self_last_api_call s"
proof (cases "is_running tk \<and> has_current_frame tk \<and>
    API_CALL_INTERVAL \<le> time_now tk - self_last_api_call s")
  case False
  with assms show ?thesis
    by (auto simp add: detection_loop_body_def Let_def split: if_splits)
next
  case True
  let ?s1 = "s\<lparr>self_last_api_call := time_now tk\<rparr>"
  show ?thesis
  proof (cases "app_detect_thumbs_up (call_gesture_api (app_reply tk))")
    case (Inl e)
    with True assms show ?thesis by (auto simp add: detection_loop_body_def Let_def)
  next
    case (Inr r)
    show ?thesis
    proof (cases "truthy r")
      case False
      with True Inr assms show ?thesis by (auto simp add: detection_loop_body_def Let_def)
    next
      case t: True
      obtain evs' s2 where g: "app_on_thumbs_up ?s1 (time_now tk) (app_env tk) = (evs', s2)"
        by (cases "app_on_thumbs_up ?s1 (time_now tk) (app_env tk)") auto
      from app_on_thumbs_up_calls [OF g] True Inr t assms g show ?thesis
        by (auto simp add: detection_loop_body_def Let_def)
    qed
  qed
qed

lemma detection_loop_body_actions:
  assumes "detection_loop_body s tk = (evs, s1, c)"
  shows "action_times evs = [] \<and> self_last_trigger_time s1 = self_last_trigger_time s \<or>
         action_times evs = [time_now tk] \<and>
           COOLDOWN_PERIOD \<le> time_now tk - self_last_trigger_time s \<and>
           self_last_trigger_time s1 = time_now tk"
proof (cases "is_running tk \<and> has_current_frame tk \<and>
    API_CALL_INTERVAL \<le> time_now tk - self_last_api_call s")
  case False
  with assms show ?thesis
    by (auto simp add: detection_loop_body_def Let_def split: if_splits)
next
  case True
  let ?s1 = "s\<lparr>self_last_api_call := time_now tk\<rparr>"
  show ?thesis
  proof (cases "app_detect_thumbs_up (call_gesture_api (app_reply tk))")
    case (Inl e)
    with True assms show ?thesis by (auto simp add: detection_loop_body_def Let_def)
  next
    case (Inr r)
    show ?thesis
    proof (cases "truthy r")
      case False
      with True Inr assms show ?thesis by (auto simp add: detection_loop_body_def Let_def)
    next
      case t: True
      obtain evs' s2 where g: "app_on_thumbs_up ?s1 (time_now tk) (app_env tk) = (evs', s2)"
        by (cases "app_on_thumbs_up ?s1 (time_now tk) (app_env tk)") auto
      from app_on_thumbs_up_actions [OF g] True Inr t assms g show ?thesis
        by (auto simp add: detection_loop_body_def Let_def)
    qed
  qed
qed

lemma detection_loop_Cons:
  "detection_loop_body s tk = (evs, s1, c) \<Longrightarrow>
     detection_loop s (tk # tks) =
       (if c = Continue then (evs @ fst (detection_loop s1 tks), snd (detection_loop s1 tks))
        else (evs, s1, c))"
  by (cases c) (simp_all split: prod.splits)

lemma detection_loop_calls_after:
  "t \<in> set (call_times (fst (detection_loop s tks))) \<Longrightarrow>
     self_last_api_call s + API_CALL_INTERVAL \<le> t"
proof (induction tks arbitrary: s)
  case Nil
  then show ?case by simp
next
  case (Cons tk tks)
  obtain evs s1 c where b: "detection_loop_body s tk = (evs, s1, c)"
    by (cases "detection_loop_body s tk") auto
  note w = detection_loop_Cons [OF b, of tks]
  from detection_loop_body_calls [OF b] show ?case
  proof
    assume n: "call_times evs = [] \<and> self_last_api_call s1 = self_last_api_call s"
    with Cons.prems w have "t \<in> set (call_times (fst (detection_loop s1 tks)))"
      by (auto simp add: call_times_append split: if_splits)
    then have "self_last_api_call s1 + API_CALL_INTERVAL \<le> t" by (rule Cons.IH)
    with n show ?case by simp
  next
    assume y: "call_times evs = [time_now tk] \<and> self_last_api_call s1 = time_now tk \<and>
           API_CALL_INTERVAL \<le> time_now tk - self_last_api_call s"
    with Cons.prems w have "t = time_now tk \<or> t \<in> set (call_times (fst (detection_loop s1 tks)))"
      by (auto simp add: call_times_append split: if_splits)
    then show ?case
    proof
      assume "t = time_now tk"
      with y show ?case by simp
    next
      assume "t \<in> set (call_times (fst (detection_loop s1 tks)))"
      then have "self_last_api_call s1 + API_CALL_INTERVAL \<le> t" by (rule Cons.IH)
      with y show ?case by (simp add: API_CALL_INTERVAL_def)
    qed
  qed
qed

lemma detection_loop_calls_spaced:
  "sorted_wrt (\<lambda>a b. API_CALL_INTERVAL \<le> b - a) (call_times (fst (detection_loop s tks)))"
proof (induction tks arbitrary: s)
  case Nil
  show ?case by simp
next
  case (Cons tk tks)
  obtain evs s1 c where b: "detection_loop_body s tk = (evs, s1, c)"
    by (cases "detection_loop_body s tk") auto
  note w = detection_loop_Cons [OF b, of tks]
  from detection_loop_body_calls [OF b] show ?case
  proof
    assume "call_times evs = [] \<and> self_last_api_call s1 = self_last_api_call s"
    with w Cons.IH [of s1] show ?case
      by (auto simp add: call_times_append)
  next
    assume y: "call_times evs = [time_now tk] \<and> self_last_api_call s1 = time_now tk \<and>
           API_CALL_INTERVAL \<le> time_now tk - self_last_api_call s"
    have "API_CALL_INTERVAL \<le> t - time_now tk"
      if "t \<in> set (call_times (fst (detection_loop s1 tks)))" for t
      using detection_loop_calls_after [OF that] y by simp
    with y w Cons.IH [of s1] show ?case
      by (auto simp add: call_times_append)
  qed
qed

lemma detection_loop_actions_after:
  "t \<in> set (action_times (fst (detection_loop s tks))) \<Longrightarrow>
     self_last_trigger_time s + COOLDOWN_PERIOD \<le> t"
proof (induction tks arbitrary: s)
  case Nil
  then show ?case by simp
next
  case (Cons tk tks)
  obtain evs s1 c where b: "detection_loop_body s tk = (evs, s1, c)"
    by (cases "detection_loop_body s tk") auto
  note w = detection_loop_Cons [OF b, of tks]
  from detection_loop_body_actions [OF b] show ?case
  proof
    assume n: "action_times evs = [] \<and> self_last_trigger_time s1 = self_last_trigger_time s"
    with Cons.prems w have "t \<in> set (action_times (fst (detection_loop s1 tks)))"
      by (auto simp add: action_times_append split: if_splits)
    then have "self_last_trigger_time s1 + COOLDOWN_PERIOD \<le> t" by (rule Cons.IH)
    with n show ?case by simp
  next
    assume y: "action_times evs = [time_now tk] \<and>
           COOLDOWN_PERIOD \<le> time_now tk - self_last_trigger_time s \<and>
           self_last_trigger_time s1 = time_now tk"
    with Cons.prems w have "t = time_now tk \<or>
        t \<in> set (action_times (fst (detection_loop s1 tks)))"
      by (auto simp add: action_times_append split: if_splits)
    then show ?case
    proof
      assume "t = time_now tk"
      with y show ?case by simp
    next
      assume "t \<in> set (action_times (fst (detection_loop s1 tks)))"
      then have "self_last_trigger_time s1 + COOLDOWN_PERIOD \<le> t" by (rule Cons.IH)
      with y show ?case by (simp add: COOLDOWN_PERIOD_def)
    qed
  qed
qed

lemma detection_loop_actions_spaced:
  "sorted_wrt (\<lambda>a b. COOLDOWN_PERIOD \<le> b - a) (action_times (fst (detection_loop s tks)))"
proof (induction tks arbitrary: s)
  case Nil
  show ?case by simp
next
  case (Cons tk tks)
  obtain evs s1 c where b: "detection_loop_body s tk = (evs, s1, c)"
    by (cases "detection_loop_body s tk") auto
  note w = detection_loop_Cons [OF b, of tks]
  from detection_loop_body_actions [OF b] show ?case
  proof
    assume "action_times evs = [] \<and> self_last_trigger_time s1 = self_last_trigger_time s"
    with w Cons.IH [of s1] show ?case
      by (auto simp add: action_times_append)
  next
    assume y: "action_times evs = [time_now tk] \<and>
           COOLDOWN_PERIOD \<le> time_now tk - self_last_trigger_time s \<and>
           self_last_trigger_time s1 = time_now tk"
    have "COOLDOWN_PERIOD \<le> t - time_now tk"
      if "t \<in> set (action_times (fst (detection_loop s1 tks)))" for t
      using detection_loop_actions_after [OF that] y by simp
    with y w Cons.IH [of s1] show ?case
      by (auto simp add: action_times_append)
  qed
qed

subsection \<open>Single passes of the loops\<close>

lemma ApiCall_in_call_times: "ApiCall t \<in> set evs \<longleftrightarrow> t \<in> set (call_times evs)"
  by (induction evs rule: call_times.induct) auto

lemma loop_body_ApiCall:
  assumes "ApiCall t \<in> set (fst (loop_body s tk))"
  shows "t = current_time tk \<and> API_CALL_INTERVAL \<le> t - last_api_call s \<and>
         last_api_call (fst (snd (loop_body s tk))) = t"
proof -
  obtain evs s1 c where b: "loop_body s tk = (evs, s1, c)"
    by (cases "loop_body s tk") auto
  with assms have "t \<in> set (call_times evs)" by (simp add: ApiCall_in_call_times)
  with loop_body_calls [OF b] b show ?thesis by auto
qed

lemma detection_loop_body_ApiCall:
  assumes "ApiCall t \<in> set (fst (detection_loop_body s tk))"
  shows "t = time_now tk \<and> API_CALL_INTERVAL \<le> t - self_last_api_call s \<and>
         self_last_api_call (fst (snd (detection_loop_body s tk))) = t"
proof -
  obtain evs s1 c where b: "detection_loop_body s tk = (evs, s1, c)"
    by (cases "detection_loop_body s tk") auto
  with assms have "t \<in> set (call_times evs)" by (simp add: ApiCall_in_call_times)
  with detection_loop_body_calls [OF b] b show ?thesis by auto
qed

lemma no_error_in_thumbs_up_document:
  "py_in ''error_message'' thumbs_up_document = Inr False"
  by (simp add: thumbs_up_document_def)


lemma call_thumbs_up_document:
  "call_gesture_api (Response 200 thumbs_up_document) = thumbs_up_document"
  by (simp add: thumbs_up_document_def)

lemma detect_thumbs_up_document: "detect_thumbs_up thumbs_up_document = Inr (PBool True)"
  by (simp add: thumbs_up_document_def detect_thumbs_up_hands_list hand_gesture_def py_or_def
      dict_get_def)

lemma app_detect_thumbs_up_document: "app_detect_thumbs_up thumbs_up_document = Inr (PBool True)"
  by (simp add: thumbs_up_document_def app_detect_thumbs_up_def py_or_def dict_get_def)

lemma loop_body_no_call:
  "\<not> API_CALL_INTERVAL \<le> t - last_api_call s \<Longrightarrow> loop_body s (tick_at t r) = ([], s, Continue)"
  by (simp add: loop_body_def tick_at_def)

lemma loop_body_failed_call:
  "API_CALL_INTERVAL \<le> t - last_api_call s \<Longrightarrow> post_to_facepp_gesture r = PNone \<Longrightarrow>
     loop_body s (tick_at t r) = ([ApiCall t], s\<lparr>last_api_call := t\<rparr>, Continue)"
  by (simp add: loop_body_def tick_at_def detect_thumbs_up_None)

lemma loop_body_thumbs_up:
  "API_CALL_INTERVAL \<le> t - last_api_call s \<Longrightarrow>
     loop_body s (tick_at t (Response 200 thumbs_up_document)) =
       (if COOLDOWN_PERIOD \<le> t - last_trigger_time s
        then ([ApiCall t, VolumeAction t True],
              s\<lparr>last_api_call := t, last_trigger_time := t\<rparr>, Continue)
        else ([ApiCall t], s\<lparr>last_api_call := t\<rparr>, Continue))"
  by (simp add: loop_body_def tick_at_def no_error_in_thumbs_up_document
      detect_thumbs_up_document cooldown_guard_def Let_def)



lemmas tick_simps = loop_body_no_call loop_body_failed_call loop_body_thumbs_up
  fresh_state_def API_CALL_INTERVAL_def COOLDOWN_PERIOD_def

lemma detection_loop_body_no_call:
  "\<not> API_CALL_INTERVAL \<le> t - self_last_api_call s \<Longrightarrow>
     detection_loop_body s (app_tick_at t r env) = ([], s, Continue)"
  by (simp add: detection_loop_body_def app_tick_at_def)

lemma detection_loop_body_thumbs_up:
  "API_CALL_INTERVAL \<le> t - self_last_api_call s \<Longrightarrow>
     detection_loop_body s (app_tick_at t (Response 200 thumbs_up_document) env) =
       (if COOLDOWN_PERIOD \<le> t - self_last_trigger_time s
        then ([ApiCall t, VolumeAction t (increase_volume env)],
              s\<lparr>self_last_api_call := t, gestures_detected := gestures_detected s + 1,
                volume_changes := volume_changes s + 1, self_last_trigger_time := t\<rparr>, Continue)
        else ([ApiCall t],
              s\<lparr>self_last_api_call := t, gestures_detected := gestures_detected s + 1\<rparr>,
              Continue))"
  by (simp add: detection_loop_body_def app_tick_at_def no_error_in_thumbs_up_document
      app_detect_thumbs_up_document app_on_thumbs_up_def Let_def)

lemmas app_tick_simps = detection_loop_body_no_call detection_loop_body_thumbs_up
  API_CALL_INTERVAL_def COOLDOWN_PERIOD_def

lemma timestamps_ordered:
  "loop_body s tk = (evs, s1, c) \<Longrightarrow> last_trigger_time s \<le> last_api_call s \<Longrightarrow>
     last_trigger_time s1 \<le> last_api_call s1"
  by (auto simp add: loop_body_def cooldown_guard_def Let_def API_CALL_INTERVAL_def
      split: if_splits sum.splits)

lemma cooldown_elapsed_at_every_call:
  "last_trigger_time s \<le> last_api_call s \<Longrightarrow> API_CALL_INTERVAL \<le> t - last_api_call s \<Longrightarrow>
     COOLDOWN_PERIOD \<le> t - last_trigger_time s"
  by (simp add: API_CALL_INTERVAL_def COOLDOWN_PERIOD_def)

section \<open>The normalizer on every input document\<close>

text \<open>
  Claim C1 says that \<^verbatim>\<open>detect_thumbs_up\<close> returns a boolean on every input document and
  never raises, whatever the types of its fields. The source has no handler and no type
  test for the payload, the hand records or the scores. Each of the documents below has
  a field of a wrong type and ends in an exception: the payload \<^verbatim>\<open>[1]\<close>, the
  documents \<^verbatim>\<open>{"hands":[5]}\<close> and \<^verbatim>\<open>{"hands":5}\<close>, and a hand whose
  \<^verbatim>\<open>thumb_up\<close> score is the string \<^verbatim>\<open>"high"\<close>, in the script; the second and
  the last of them in the desktop application as well.
\<close>

theorem detect_thumbs_up_raises_on_wrong_types:
  "detect_thumbs_up (PList [PInt 1]) = Inl AttributeError \<and>
   detect_thumbs_up (PDict [(''hands'', PList [PInt 5])]) = Inl AttributeError \<and>
   detect_thumbs_up (PDict [(''hands'', PInt 5)]) = Inl TypeError \<and>
   detect_thumbs_up (PDict [(''hands'',
      PList [PDict [(''gesture'', PDict [(''thumb_up'', PStr ''high'')])]])]) = Inl TypeError \<and>
   app_detect_thumbs_up (PDict [(''hands'', PList [PInt 5])]) = Inl AttributeError \<and>
   app_detect_thumbs_up (PDict [(''hands'',
      PList [PDict [(''gesture'', PDict [(''thumb_up'', PStr ''high'')])]])]) = Inl TypeError"
  by (simp add: detect_thumbs_up_def app_detect_thumbs_up_def find_hands_def py_or_def
      dict_get_def hand_gesture_def)

text \<open>
  Claim C1, as amended: on every well-typed document (\<open>document_ok\<close>: the payload is
  \<^verbatim>\<open>None\<close> or a dictionary, the collections are lists of dictionaries, the scores are
  numbers; keys may be missing and the dictionary may be empty) both variants of
  \<^verbatim>\<open>detect_thumbs_up\<close> terminate without raising and return exactly one boolean.
\<close>

theorem detect_thumbs_up_total_on_well_typed:
  "document_ok payload \<Longrightarrow>
     (\<exists>b. detect_thumbs_up payload = Inr (PBool b)) \<and>
     (\<exists>b. app_detect_thumbs_up payload = Inr (PBool b))"
  by (simp add: detect_thumbs_up_ok app_detect_thumbs_up_ok)

theorem detect_thumbs_up_total_on_well_typed_witness:
  "document_ok (PDict [(''faces'', PInt 0), (''hands'', PList [PDict [],
      PDict [(''gesture'', PList [])],
      PDict [(''gesture'', PDict [(''thumb_up'', PFloat (Finite 12.5))])]])]) \<and>
   detect_thumbs_up (PDict [(''faces'', PInt 0), (''hands'', PList [PDict [],
      PDict [(''gesture'', PList [])],
      PDict [(''gesture'', PDict [(''thumb_up'', PFloat (Finite 12.5))])]])]) =
     Inr (PBool False) \<and>
   app_detect_thumbs_up (PDict [(''faces'', PInt 0), (''hands'', PList [PDict [],
      PDict [(''gesture'', PList [])],
      PDict [(''gesture'', PDict [(''thumb_up'', PFloat (Finite 12.5))])]])]) =
     Inr (PBool False)"
  using detect_thumbs_up_total_on_well_typed
    [of "PDict [(''faces'', PInt 0), (''hands'', PList [PDict [],
      PDict [(''gesture'', PList [])],
      PDict [(''gesture'', PDict [(''thumb_up'', PFloat (Finite 12.5))])]])]"]
  by (simp add: detect_thumbs_up_def app_detect_thumbs_up_def find_hands_def py_or_def
      dict_get_def hand_gesture_def entry_ok_def)

section \<open>Descriptors that are neither a mapping nor a string\<close>

text \<open>
  Claim C10: a hand record whose gesture descriptor (the value that line 125 finds under
  \<^verbatim>\<open>gesture\<close>, \<^verbatim>\<open>gesture_type\<close>, \<^verbatim>\<open>label\<close>) is neither a dictionary nor a string,
  for example a number, a list, \<^verbatim>\<open>None\<close> or nothing at all, is no match and raises
  nothing; the loop goes on with the next hand, so the hand can be deleted from the
  collection without changing the result, exceptions included; and a collection of such
  hands alone yields \<^verbatim>\<open>False\<close>.
\<close>

theorem detect_thumbs_up_skips_other_descriptors:
  assumes "other_descriptor (hand_gesture h)"
  shows "hand_is_thumbs_up (PDict h) = Inr False \<and>
         hands_loop (pre @ PDict h # post) = hands_loop (pre @ post) \<and>
         (unwrap_hands (find_hands kvs) = PList (pre @ PDict h # post) \<longrightarrow>
            detect_thumbs_up (PDict kvs) = hands_loop (pre @ post)) \<and>
         (list_all unmatched_hand hs \<and> unwrap_hands (find_hands kvs) = PList hs \<longrightarrow>
            detect_thumbs_up (PDict kvs) = Inr (PBool False))"
proof -
  from assms have no: "hand_is_thumbs_up (PDict h) = Inr False"
    by (simp add: other_descriptor_no_match)
  then have skip: "hands_loop (pre @ PDict h # post) = hands_loop (pre @ post)"
    by (rule hands_loop_skip)
  show ?thesis
    using no skip by (simp add: detect_thumbs_up_located hands_loop_all_unmatched)
qed

theorem detect_thumbs_up_skips_other_descriptors_witness:
  "other_descriptor (hand_gesture [(''gesture'', PInt 7)]) \<and>
   hand_is_thumbs_up (PDict [(''gesture'', PInt 7)]) = Inr False \<and>
   detect_thumbs_up (PDict [(''hands'', PList
      [PDict [(''label'', PStr ''fist'')], PDict [(''gesture'', PInt 7)],
       PDict [(''gesture'', PStr ''thumbs_up'')]])]) = Inr (PBool True) \<and>
   detect_thumbs_up (PDict [(''hands'', PList
      [PDict [(''gesture'', PInt 7)], PDict [(''gesture'', PList [])],
       PDict [(''label'', PNone)], PDict []])]) = Inr (PBool False)"
  using detect_thumbs_up_skips_other_descriptors
    [of "[(''gesture'', PInt 7)]" "[PDict [(''label'', PStr ''fist'')]]"
      "[PDict [(''gesture'', PStr ''thumbs_up'')]]"
      "[(''hands'', PList [PDict [(''label'', PStr ''fist'')], PDict [(''gesture'', PInt 7)],
          PDict [(''gesture'', PStr ''thumbs_up'')]])]"
      "[PDict [(''gesture'', PInt 7)], PDict [(''gesture'', PList [])],
        PDict [(''label'', PNone)], PDict []]"]
  by (simp add: detect_thumbs_up_def find_hands_def py_or_def dict_get_def hand_gesture_def
      gesture_normalized_def py_remove_def py_lower_def lower_char_def)

section \<open>Locating the hands\<close>

text \<open>
  Claim C5 says that without a collection, or with an empty one, the normalizer returns
  \<^verbatim>\<open>present=false, confidence=0\<close>. The source returns the bare boolean \<^verbatim>\<open>False\<close>: the
  value it returns is not a signal that carries a confidence, for the empty object and for
  an empty \<^verbatim>\<open>hands\<close> list alike.
\<close>

theorem detect_thumbs_up_no_confidence_zero:
  "detect_thumbs_up (PDict []) \<noteq> Inr (GestureSignal False (PInt 0)) \<and>
   detect_thumbs_up (PDict [(''hands'', PList [])]) \<noteq> Inr (GestureSignal False (PInt 0))"
  by (simp add: normalizer_defs GestureSignal_def)

text \<open>
  Claim C5, as amended. The collection is the first truthy value among the entries
  \<^verbatim>\<open>hands\<close>, \<^verbatim>\<open>hand_gestures\<close>, \<^verbatim>\<open>result\<close> of the payload, in that order (a
  missing key and a falsy value such as \<^verbatim>\<open>None\<close> or an empty list are passed over), and
  the empty list when there is none; when that value is a dictionary, its \<^verbatim>\<open>hands\<close>
  entry is taken in its place (the empty list when it has none); the hands of the list
  found are then examined. Whenever nothing is found or what is found is empty, the
  result is the boolean \<^verbatim>\<open>False\<close>; no confidence is returned.
\<close>

theorem detect_thumbs_up_locates_hands:
  "find_hands kvs =
     (if truthy (dict_get kvs ''hands'' PNone) then dict_get kvs ''hands'' PNone
      else if truthy (dict_get kvs ''hand_gestures'' PNone) then dict_get kvs ''hand_gestures'' PNone
      else if truthy (dict_get kvs ''result'' PNone) then dict_get kvs ''result'' PNone
      else PList []) \<and>
   (find_hands kvs = PList hs \<longrightarrow> detect_thumbs_up (PDict kvs) = hands_loop hs) \<and>
   (find_hands kvs = PDict d \<and> dict_get d ''hands'' (PList []) = PList hs \<longrightarrow>
      detect_thumbs_up (PDict kvs) = hands_loop hs) \<and>
   (find_hands kvs = PDict d \<and> \<not> truthy (dict_get d ''hands'' (PList [])) \<longrightarrow>
      detect_thumbs_up (PDict kvs) = Inr (PBool False)) \<and>
   (\<not> truthy (dict_get kvs ''hands'' PNone) \<and> \<not> truthy (dict_get kvs ''hand_gestures'' PNone) \<and>
    \<not> truthy (dict_get kvs ''result'' PNone) \<longrightarrow>
      detect_thumbs_up (PDict kvs) = Inr (PBool False)) \<and>
   (\<not> truthy (unwrap_hands (find_hands kvs)) \<longrightarrow>
      detect_thumbs_up (PDict kvs) = Inr (PBool False)) \<and>
   detect_thumbs_up PNone = Inr (PBool False) \<and>
   detect_thumbs_up (PDict []) = Inr (PBool False) \<and>
   detect_thumbs_up (PDict [(''hands'', PList [])]) = Inr (PBool False)"
proof -
  have a: "find_hands kvs = PList hs \<longrightarrow> detect_thumbs_up (PDict kvs) = hands_loop hs"
    by (simp add: detect_thumbs_up_located)
  have b: "find_hands kvs = PDict d \<and> dict_get d ''hands'' (PList []) = PList hs \<longrightarrow>
      detect_thumbs_up (PDict kvs) = hands_loop hs"
    by (simp add: detect_thumbs_up_located)
  have c: "find_hands kvs = PDict d \<and> \<not> truthy (dict_get d ''hands'' (PList [])) \<longrightarrow>
      detect_thumbs_up (PDict kvs) = Inr (PBool False)"
    by (simp add: detect_thumbs_up_no_hands)
  have d: "\<not> truthy (dict_get kvs ''hands'' PNone) \<and> \<not> truthy (dict_get kvs ''hand_gestures'' PNone) \<and>
    \<not> truthy (dict_get kvs ''result'' PNone) \<longrightarrow>
      detect_thumbs_up (PDict kvs) = Inr (PBool False)"
    by (simp add: detect_thumbs_up_no_hands find_hands_first_truthy)
  have e: "detect_thumbs_up (PDict []) = Inr (PBool False)"
    by (simp add: detect_thumbs_up_def)
  have f: "detect_thumbs_up (PDict [(''hands'', PList [])]) = Inr (PBool False)"
    by (simp add: detect_thumbs_up_hands_list)
  show ?thesis
    using a b c d e f
    by (simp add: find_hands_first_truthy [symmetric] detect_thumbs_up_no_hands detect_thumbs_up_None)
qed

theorem detect_thumbs_up_locates_hands_witness:
  "find_hands [(''hands'', PList []), (''hand_gestures'', PInt 0),
      (''result'', PDict [(''hands'', PList [PDict [(''label'', PStr ''thumbs up'')]])])] =
     PDict [(''hands'', PList [PDict [(''label'', PStr ''thumbs up'')]])] \<and>
   detect_thumbs_up (PDict [(''hands'', PList []), (''hand_gestures'', PInt 0),
      (''result'', PDict [(''hands'', PList [PDict [(''label'', PStr ''thumbs up'')]])])]) =
     Inr (PBool True) \<and>
   detect_thumbs_up (PDict [(''hands'', PNone), (''result'', PDict [(''hands'', PList [])])]) = Inr (PBool False)"
  using detect_thumbs_up_locates_hands [of "[(''hands'', PList []), (''hand_gestures'', PInt 0),
      (''result'', PDict [(''hands'', PList [PDict [(''label'', PStr ''thumbs up'')]])])]"
      "[PDict [(''label'', PStr ''thumbs up'')]]"
      "[(''hands'', PList [PDict [(''label'', PStr ''thumbs up'')]])]"]
    detect_thumbs_up_locates_hands [of "[(''hands'', PNone), (''result'', PDict [(''hands'', PList [])])]" "[]" "[(''hands'', PList [])]"]
  by (simp add: normalizer_defs GestureSignal_def)

section \<open>Descriptors that are mappings of scores\<close>

text \<open>
  Claim C6 says that a qualifying hand makes the normalizer return \<^verbatim>\<open>present=true\<close>
  with the score as confidence. The source compares the score with 50 and returns the
  bare boolean \<^verbatim>\<open>True\<close>: the value returned for a score of 75 is not a signal with the
  confidence 75, and it is the very value returned for a score of 90.
\<close>

theorem detect_thumbs_up_returns_no_score:
  "detect_thumbs_up (PDict [(''hands'', PList [PDict [(''gesture'', PDict [(''thumb_up'', PInt 75)])]])])
     \<noteq> Inr (GestureSignal True (PInt 75)) \<and>
   detect_thumbs_up (PDict [(''hands'', PList [PDict [(''gesture'', PDict [(''thumb_up'', PInt 75)])]])])
     = detect_thumbs_up (PDict [(''hands'', PList [PDict [(''gesture'', PDict [(''thumb_up'', PInt 90)])]])])"
  by (simp add: normalizer_defs GestureSignal_def)

text \<open>
  Claim C6, as amended. For a hand record whose descriptor is a dictionary the outcome
  is the comparison of its \<^verbatim>\<open>thumb_up\<close> entry (0 when there is none) with 50: the hand
  matches exactly when the score is strictly greater than 50, for integer and for float
  scores. The first matching hand decides: when the hands before it did not match, the
  result is \<^verbatim>\<open>True\<close> whatever follows. The result is the bare boolean; the score is not
  returned. The document \<^verbatim>\<open>{"hands":[{"gesture":{"thumb_up":75}}]}\<close> yields \<^verbatim>\<open>True\<close>.
\<close>

theorem detect_thumbs_up_score_threshold:
  assumes "hand_gesture h = PDict g"
  shows "hand_is_thumbs_up (PDict h) = gt_50 (dict_get g ''thumb_up'' (PInt 0)) \<and>
     (map_of g ''thumb_up'' = None \<longrightarrow> hand_is_thumbs_up (PDict h) = Inr False) \<and>
     (map_of g ''thumb_up'' = Some (PInt n) \<longrightarrow>
        hand_is_thumbs_up (PDict h) = Inr (50 < n) \<and>
        detect_thumbs_up (PDict [(''hands'', PList [PDict h])]) = Inr (PBool (50 < n))) \<and>
     (map_of g ''thumb_up'' = Some (PFloat (Finite r)) \<longrightarrow>
        hand_is_thumbs_up (PDict h) = Inr (50 < r) \<and>
        detect_thumbs_up (PDict [(''hands'', PList [PDict h])]) = Inr (PBool (50 < r))) \<and>
     (hands_loop pre = Inr (PBool False) \<and> gt_50 (dict_get g ''thumb_up'' (PInt 0)) = Inr True \<longrightarrow>
        hands_loop (pre @ PDict h # post) = Inr (PBool True)) \<and>
     detect_thumbs_up (PDict [(''hands'',
        PList [PDict [(''gesture'', PDict [(''thumb_up'', PInt 75)])]])]) = Inr (PBool True)"
proof -
  from assms have h: "hand_is_thumbs_up (PDict h) = gt_50 (dict_get g ''thumb_up'' (PInt 0))"
    by simp
  have first: "hands_loop (pre @ PDict h # post) = Inr (PBool True)"
    if "hands_loop pre = Inr (PBool False)" "gt_50 (dict_get g ''thumb_up'' (PInt 0)) = Inr True"
    using that h by (simp add: hands_loop_append_False)
  have doc: "detect_thumbs_up (PDict [(''hands'',
        PList [PDict [(''gesture'', PDict [(''thumb_up'', PInt 75)])]])]) = Inr (PBool True)"
    by (simp add: detect_thumbs_up_hands_list hand_gesture_def py_or_def dict_get_def)
  have none: "hand_is_thumbs_up (PDict h) = Inr False" if "map_of g ''thumb_up'' = None"
    using that h by (simp add: dict_get_def)
  have int: "hand_is_thumbs_up (PDict h) = Inr (50 < n)" if "map_of g ''thumb_up'' = Some (PInt n)"
    using that h by (simp add: dict_get_def)
  have float: "hand_is_thumbs_up (PDict h) = Inr (50 < r)"
    if "map_of g ''thumb_up'' = Some (PFloat (Finite r))"
    using that h by (simp add: dict_get_def)
  show ?thesis
    using h first doc none int float detect_thumbs_up_single_hand [of "PDict h"]
    by blast
qed

theorem detect_thumbs_up_score_threshold_witness:
  "hand_gesture [(''gesture'', PDict [(''thumb_up'', PInt 51), (''fist'', PInt 9)])] =
     PDict [(''thumb_up'', PInt 51), (''fist'', PInt 9)] \<and>
   hand_is_thumbs_up (PDict [(''gesture'', PDict [(''thumb_up'', PInt 51), (''fist'', PInt 9)])]) = Inr True \<and>
   detect_thumbs_up (PDict [(''hands'', PList [PDict [(''gesture'', PDict [(''thumb_up'', PInt 50)])],
     PDict [(''gesture'', PDict [(''thumb_up'', PInt 51), (''fist'', PInt 9)])], PInt 3])]) = Inr (PBool True)"
  using detect_thumbs_up_score_threshold [of "[(''gesture'', PDict [(''thumb_up'', PInt 51), (''fist'', PInt 9)])]"
     "[(''thumb_up'', PInt 51), (''fist'', PInt 9)]" 51 0
     "[PDict [(''gesture'', PDict [(''thumb_up'', PInt 50)])]]" "[PInt 3]"]
  by (simp add: normalizer_defs GestureSignal_def)

section \<open>Descriptors that are labels\<close>

text \<open>
  Claim C7 says that a matching label makes the normalizer return \<^verbatim>\<open>present=true\<close>
  with the confidence 100. The source returns the bare boolean \<^verbatim>\<open>True\<close>; the number 100
  occurs nowhere in it.
\<close>

theorem detect_thumbs_up_no_confidence_hundred:
  "detect_thumbs_up (PDict [(''hands'', PList [PDict [(''gesture'', PStr ''Thumb_Up'')]])])
     \<noteq> Inr (GestureSignal True (PInt 100))"
  by (simp add: normalizer_defs GestureSignal_def)

text \<open>
  Claim C7, as amended. For a hand record whose descriptor is a string, the string is
  lower-cased and its underscores and spaces are removed; the hand matches exactly when
  the outcome is \<^verbatim>\<open>thumbup\<close> or \<^verbatim>\<open>thumbsup\<close>, and the first matching hand decides.
  The result is the bare boolean; no confidence is returned. The document
  \<^verbatim>\<open>{"hands":[{"gesture":"Thumb_Up"}]}\<close> yields \<^verbatim>\<open>True\<close>.
\<close>

theorem detect_thumbs_up_label:
  assumes "hand_gesture h = PStr s"
  shows "gesture_normalized s = filter (\<lambda>c. c \<noteq> CHR ''_'' \<and> c \<noteq> CHR '' '') (map lower_char s) \<and>
     hand_is_thumbs_up (PDict h) =
       Inr (gesture_normalized s = ''thumbup'' \<or> gesture_normalized s = ''thumbsup'') \<and>
     detect_thumbs_up (PDict [(''hands'', PList [PDict h])]) =
       Inr (PBool (gesture_normalized s = ''thumbup'' \<or> gesture_normalized s = ''thumbsup'')) \<and>
     (hands_loop pre = Inr (PBool False) \<and>
      (gesture_normalized s = ''thumbup'' \<or> gesture_normalized s = ''thumbsup'') \<longrightarrow>
        hands_loop (pre @ PDict h # post) = Inr (PBool True)) \<and>
     detect_thumbs_up (PDict [(''hands'', PList [PDict [(''gesture'', PStr ''Thumb_Up'')]])]) =
       Inr (PBool True)"
proof -
  have norm: "gesture_normalized s = filter (\<lambda>c. c \<noteq> CHR ''_'' \<and> c \<noteq> CHR '' '') (map lower_char s)"
    by (simp add: gesture_normalized_def py_remove_def py_lower_def conj_commute)
  from assms have h: "hand_is_thumbs_up (PDict h) =
       Inr (gesture_normalized s = ''thumbup'' \<or> gesture_normalized s = ''thumbsup'')"
    by simp
  have first: "hands_loop (pre @ PDict h # post) = Inr (PBool True)"
    if "hands_loop pre = Inr (PBool False)"
       "gesture_normalized s = ''thumbup'' \<or> gesture_normalized s = ''thumbsup''"
    using that h by (simp add: hands_loop_append_False)
  have doc: "detect_thumbs_up (PDict [(''hands'', PList [PDict [(''gesture'', PStr ''Thumb_Up'')]])]) =
       Inr (PBool True)"
    by (simp add: normalizer_defs GestureSignal_def)
  have single: "detect_thumbs_up (PDict [(''hands'', PList [PDict h])]) =
       Inr (PBool (gesture_normalized s = ''thumbup'' \<or> gesture_normalized s = ''thumbsup''))"
    using h by (rule detect_thumbs_up_single_hand)
  show ?thesis
    using norm h first doc single by blast
qed

theorem detect_thumbs_up_label_witness:
  "hand_gesture [(''gesture'', PStr ''''), (''label'', PStr ''THUMBS UP'')] = PStr ''THUMBS UP'' \<and>
   gesture_normalized ''THUMBS UP'' = ''thumbsup'' \<and>
   detect_thumbs_up (PDict [(''hands'', PList [PDict [(''gesture'', PStr ''fist'')],
      PDict [(''gesture'', PStr ''''), (''label'', PStr ''THUMBS UP'')], PNone])]) = Inr (PBool True)"
  using detect_thumbs_up_label [of "[(''gesture'', PStr ''''), (''label'', PStr ''THUMBS UP'')]" "''THUMBS UP''"
      "[PDict [(''gesture'', PStr ''fist'')]]" "[PNone]"]
  by (simp add: normalizer_defs GestureSignal_def)

section \<open>The rate limit\<close>

text \<open>
  Claim C2: in the trace of the script's loop and of the application's loop, from any
  state and over any sequence of ticks (the weakly increasing ones among them), any two
  classification calls are at least \<open>API_CALL_INTERVAL\<close> (2 seconds) apart: a later
  call's tick time minus an earlier call's tick time is at least the interval. A call is
  issued at the tick time \<open>t\<close> only if \<open>t\<close> minus the time of the last call is at least the
  interval, and the time of the last call is \<open>t\<close> after that pass. The calls are made
  one after the other by the loop itself, so they never overlap.
\<close>

theorem classification_calls_spaced:
  "sorted_wrt (\<lambda>a b. API_CALL_INTERVAL \<le> b - a) (call_times (fst (while_loop s ticks))) \<and>
   sorted_wrt (\<lambda>a b. API_CALL_INTERVAL \<le> b - a)
     (call_times (fst (detection_loop app app_ticks))) \<and>
   (ApiCall t \<in> set (fst (loop_body s tk)) \<longrightarrow>
      t = current_time tk \<and> API_CALL_INTERVAL \<le> t - last_api_call s \<and>
      last_api_call (fst (snd (loop_body s tk))) = t) \<and>
   (ApiCall t \<in> set (fst (detection_loop_body app app_tk)) \<longrightarrow>
      t = time_now app_tk \<and> API_CALL_INTERVAL \<le> t - self_last_api_call app \<and>
      self_last_api_call (fst (snd (detection_loop_body app app_tk))) = t)"
proof (intro conjI impI)
  show "sorted_wrt (\<lambda>a b. API_CALL_INTERVAL \<le> b - a) (call_times (fst (while_loop s ticks)))"
    by (rule while_loop_calls_spaced)
  show "sorted_wrt (\<lambda>a b. API_CALL_INTERVAL \<le> b - a)
     (call_times (fst (detection_loop app app_ticks)))"
    by (rule detection_loop_calls_spaced)
qed (simp_all add: loop_body_ApiCall detection_loop_body_ApiCall)

lemmas loop_defs = loop_body_def cooldown_guard_def tick_at_def fresh_state_def
  API_CALL_INTERVAL_def COOLDOWN_PERIOD_def thumbs_up_document_def Let_def
  detection_loop_body_def app_on_thumbs_up_def app_tick_at_def increase_volume_def
  linux_without_mixer_def macos_def app_detect_thumbs_up_def

theorem classification_calls_spaced_witness:
  "call_times (fst (while_loop fresh_state
      [tick_at 1 RequestFailed, tick_at 2 RequestFailed, tick_at 3 (Response 200 thumbs_up_document),
       tick_at (9/2) (Response 200 thumbs_up_document), tick_at 6 (Response 200 thumbs_up_document)]))
     = [2, 9/2] \<and>
   sorted_wrt (\<lambda>a b. API_CALL_INTERVAL \<le> b - a) [2, 9/2]"
  using classification_calls_spaced [of fresh_state "[tick_at 1 RequestFailed, tick_at 2 RequestFailed,
       tick_at 3 (Response 200 thumbs_up_document),
       tick_at (9/2) (Response 200 thumbs_up_document), tick_at 6 (Response 200 thumbs_up_document)]"]
  by (simp add: tick_simps)

section \<open>The cooldown\<close>

text \<open>
  Claim C3: in the trace of either loop, from any state and over any sequence of ticks,
  whatever the detections in between, any two invocations of the volume action are at
  least \<open>COOLDOWN_PERIOD\<close> (1 second) apart. A positive detection at a tick whose time
  is less than the cooldown after the last trigger invokes no action and leaves the time
  of the last trigger as it was; the application counts it in \<^verbatim>\<open>gestures_detected\<close> (the
  script has no counters).
\<close>

theorem volume_actions_spaced:
  "sorted_wrt (\<lambda>a b. COOLDOWN_PERIOD \<le> b - a) (action_times (fst (while_loop s ticks))) \<and>
   sorted_wrt (\<lambda>a b. COOLDOWN_PERIOD \<le> b - a)
     (action_times (fst (detection_loop app app_ticks))) \<and>
   (frame_ok tk \<and> key_code tk \<noteq> 27 \<and> API_CALL_INTERVAL \<le> current_time tk - last_api_call s \<and>
    detect_thumbs_up (post_to_facepp_gesture (reply tk)) = Inr r \<and> truthy r \<and>
    current_time tk - last_trigger_time s < COOLDOWN_PERIOD \<longrightarrow>
      loop_body s tk =
        ([ApiCall (current_time tk)], s\<lparr>last_api_call := current_time tk\<rparr>, Continue)) \<and>
   (is_running app_tk \<and> has_current_frame app_tk \<and>
    API_CALL_INTERVAL \<le> time_now app_tk - self_last_api_call app \<and>
    app_detect_thumbs_up (call_gesture_api (app_reply app_tk)) = Inr r' \<and> truthy r' \<and>
    time_now app_tk - self_last_trigger_time app < COOLDOWN_PERIOD \<longrightarrow>
      detection_loop_body app app_tk =
        ([ApiCall (time_now app_tk)],
         app\<lparr>self_last_api_call := time_now app_tk,
             gestures_detected := gestures_detected app + 1\<rparr>, Continue))"
proof (intro conjI impI)
  show "sorted_wrt (\<lambda>a b. COOLDOWN_PERIOD \<le> b - a) (action_times (fst (while_loop s ticks)))"
    by (rule while_loop_actions_spaced)
  show "sorted_wrt (\<lambda>a b. COOLDOWN_PERIOD \<le> b - a)
     (action_times (fst (detection_loop app app_ticks)))"
    by (rule detection_loop_actions_spaced)
qed (simp_all add: loop_body_def cooldown_guard_def detection_loop_body_def app_on_thumbs_up_def
    Let_def)

theorem volume_actions_spaced_witness:
  "action_times (fst (while_loop fresh_state
      [tick_at 2 (Response 200 thumbs_up_document), tick_at 3 (Response 200 thumbs_up_document),
       tick_at 4 (Response 200 thumbs_up_document)])) = [2, 4] \<and>
   sorted_wrt (\<lambda>a b. COOLDOWN_PERIOD \<le> b - a) [2, 4] \<and>
   loop_body \<lparr>last_api_call = 7, last_trigger_time = 19/2\<rparr>
       (tick_at 10 (Response 200 thumbs_up_document)) =
     ([ApiCall 10], \<lparr>last_api_call = 10, last_trigger_time = 19/2\<rparr>, Continue) \<and>
   detection_loop_body
       \<lparr>self_last_api_call = 7, self_last_trigger_time = 19/2, gestures_detected = 3,
        volume_changes = 1\<rparr>
       (app_tick_at 10 (Response 200 thumbs_up_document) macos) =
     ([ApiCall 10],
      \<lparr>self_last_api_call = 10, self_last_trigger_time = 19/2, gestures_detected = 4,
       volume_changes = 1\<rparr>, Continue)"
  using volume_actions_spaced [of fresh_state "[tick_at 2 (Response 200 thumbs_up_document),
       tick_at 3 (Response 200 thumbs_up_document), tick_at 4 (Response 200 thumbs_up_document)]"]
  by (simp add: tick_simps app_tick_simps)




section \<open>Failed classification calls\<close>

text \<open>
  Claim C8, for the script's loop: at every tick at which a classification call is
  attempted (a frame was read, the key is not ESC, the interval has elapsed) the call is
  issued and \<^verbatim>\<open>last_api_call\<close> is that tick's time afterwards, whatever the outcome.
  When the call fails (the client returns \<^verbatim>\<open>None\<close>: the request raised, the frame could
  not be encoded, the status code is not 200, or the body has an \<^verbatim>\<open>error_message\<close>),
  the pass makes the call and nothing else, \<^verbatim>\<open>last_trigger_time\<close> stays as it was, the
  loop continues, and every later call of the loop comes at least \<open>API_CALL_INTERVAL\<close>
  after this tick's time.
\<close>

theorem failed_call_keeps_rate_limit:
  assumes "frame_ok tk" and "key_code tk \<noteq> 27"
    and "API_CALL_INTERVAL \<le> current_time tk - last_api_call s"
  shows "ApiCall (current_time tk) \<in> set (fst (loop_body s tk)) \<and>
     last_api_call (fst (snd (loop_body s tk))) = current_time tk \<and>
     (post_to_facepp_gesture (reply tk) = PNone \<longrightarrow>
        loop_body s tk =
          ([ApiCall (current_time tk)], s\<lparr>last_api_call := current_time tk\<rparr>, Continue) \<and>
        last_trigger_time (fst (snd (loop_body s tk))) = last_trigger_time s \<and>
        (\<forall>t \<in> set (call_times (fst (while_loop (fst (snd (loop_body s tk))) ticks))).
           current_time tk + API_CALL_INTERVAL \<le> t)) \<and>
     post_to_facepp_gesture RequestFailed = PNone \<and>
     post_to_facepp_gesture EncodeFailed = PNone \<and>
     (status_code \<noteq> 200 \<longrightarrow> post_to_facepp_gesture (Response status_code body) = PNone) \<and>
     (map_of kvs ''error_message'' \<noteq> None \<longrightarrow>
        post_to_facepp_gesture (Response status_code (PDict kvs)) = PNone)"
proof -
  obtain evs s1 c where b: "loop_body s tk = (evs, s1, c)"
    by (cases "loop_body s tk") auto
  from assms b have "call_times evs \<noteq> []"
    by (auto simp add: loop_body_def Let_def split: sum.splits if_splits prod.splits)
  with loop_body_calls [OF b] have
    c: "call_times evs = [current_time tk]" and l: "last_api_call s1 = current_time tk"
    by auto
  from c have in_evs: "ApiCall (current_time tk) \<in> set evs"
    by (simp add: ApiCall_in_call_times)
  have err: "loop_body s tk =
          ([ApiCall (current_time tk)], s\<lparr>last_api_call := current_time tk\<rparr>, Continue)"
    if "post_to_facepp_gesture (reply tk) = PNone"
    using that assms by (simp add: loop_body_def detect_thumbs_up_None Let_def)
  have later: "current_time tk + API_CALL_INTERVAL \<le> t"
    if "t \<in> set (call_times (fst (while_loop (fst (snd (loop_body s tk))) ticks)))" for t
    using while_loop_calls_after [OF that] b l by simp
  show ?thesis
    using b in_evs l err later by (auto split: sum.splits bool.splits)
qed

theorem failed_call_keeps_rate_limit_witness:
  "loop_body \<lparr>last_api_call = 3, last_trigger_time = 1\<rparr> (tick_at 5 RequestFailed) =
     ([ApiCall 5], \<lparr>last_api_call = 5, last_trigger_time = 1\<rparr>, Continue) \<and>
   call_times (fst (while_loop \<lparr>last_api_call = 5, last_trigger_time = 1\<rparr>
      [tick_at (11/2) (Response 200 thumbs_up_document), tick_at 6 RequestFailed,
       tick_at 7 (Response 500 PNone), tick_at 8 (Response 200 thumbs_up_document)])) = [7]"
  using failed_call_keeps_rate_limit [of "tick_at 5 RequestFailed" "\<lparr>last_api_call = 3, last_trigger_time = 1\<rparr>"
      "[tick_at (11/2) (Response 200 thumbs_up_document), tick_at 6 RequestFailed,
       tick_at 7 (Response 500 PNone), tick_at 8 (Response 200 thumbs_up_document)]"]
  by (simp add: tick_simps tick_at_def [of 5])

section \<open>A failing volume action\<close>

text \<open>
  Claim C9 says that the counters are not incremented when the volume action fails. In
  the application \<^verbatim>\<open>increase_volume\<close> swallows every failure and reports nothing, and the
  loop increments \<^verbatim>\<open>volume_changes\<close> after calling it: on a Linux system on which both
  \<^verbatim>\<open>amixer\<close> and \<^verbatim>\<open>pactl\<close> fail, the volume does not change and both counters go up.
\<close>

theorem volume_changes_counted_on_failure:
  "increase_volume linux_without_mixer = False \<and>
   detection_loop_body
       \<lparr>self_last_api_call = 0, self_last_trigger_time = 0, gestures_detected = 0,
        volume_changes = 0\<rparr>
       (app_tick_at 5 (Response 200 thumbs_up_document) linux_without_mixer) =
     ([ApiCall 5, VolumeAction 5 False],
      \<lparr>self_last_api_call = 5, self_last_trigger_time = 5, gestures_detected = 1,
       volume_changes = 1\<rparr>, Continue)"
  by (simp add: app_tick_simps increase_volume_def linux_without_mixer_def)

text \<open>
  Claim C9, as amended: the state after a pass of the application's loop and whether the
  loop continues do not depend on the outcome of the volume action. At a tick with a
  positive detection after the cooldown the action is invoked, the loop continues, both
  counters are incremented and \<^verbatim>\<open>last_trigger_time\<close> becomes the tick's time, whether
  the volume changed or not.
\<close>

theorem volume_failure_leaves_state_alike:
  "snd (detection_loop_body s (tk\<lparr>app_env := env\<rparr>)) = snd (detection_loop_body s tk) \<and>
   (is_running tk \<and> has_current_frame tk \<and>
    API_CALL_INTERVAL \<le> time_now tk - self_last_api_call s \<and>
    app_detect_thumbs_up (call_gesture_api (app_reply tk)) = Inr r \<and> truthy r \<and>
    COOLDOWN_PERIOD \<le> time_now tk - self_last_trigger_time s \<longrightarrow>
      detection_loop_body s tk =
        ([ApiCall (time_now tk), VolumeAction (time_now tk) (increase_volume (app_env tk))],
         s\<lparr>self_last_api_call := time_now tk, gestures_detected := gestures_detected s + 1,
           volume_changes := volume_changes s + 1, self_last_trigger_time := time_now tk\<rparr>,
         Continue))"
  by (auto simp add: detection_loop_body_def app_on_thumbs_up_def Let_def split: sum.splits)

theorem volume_failure_leaves_state_alike_witness:
  "snd (detection_loop_body
       \<lparr>self_last_api_call = 0, self_last_trigger_time = 0, gestures_detected = 0,
        volume_changes = 0\<rparr>
       (app_tick_at 5 (Response 200 thumbs_up_document) linux_without_mixer)) =
   snd (detection_loop_body
       \<lparr>self_last_api_call = 0, self_last_trigger_time = 0, gestures_detected = 0,
        volume_changes = 0\<rparr>
       (app_tick_at 5 (Response 200 thumbs_up_document) macos)) \<and>
   detection_loop_body
       \<lparr>self_last_api_call = 0, self_last_trigger_time = 0, gestures_detected = 0,
        volume_changes = 0\<rparr>
       (app_tick_at 5 (Response 200 thumbs_up_document) macos) =
     ([ApiCall 5, VolumeAction 5 True],
      \<lparr>self_last_api_call = 5, self_last_trigger_time = 5, gestures_detected = 1,
       volume_changes = 1\<rparr>, Continue)"
  using volume_failure_leaves_state_alike [where s = "\<lparr>self_last_api_call = 0, self_last_trigger_time = 0,
        gestures_detected = 0, volume_changes = 0\<rparr>"
      and tk = "app_tick_at 5 (Response 200 thumbs_up_document) macos"
      and env = linux_without_mixer]
  by (simp add: app_tick_simps increase_volume_def macos_def)

end
